theory Spec2Isabelle
  imports Complex_Main
begin

section \<open>Constants of the lite chapter reader\<close>

text \<open>
  \<^verbatim>\<open>src/screens/LiteChapterReaderScreen.tsx\<close>, lines 40 to 47. Indices and pixel sizes
  are JavaScript numbers that only ever hold integers here (list indices, intrinsic image
  sizes in source pixels); they are modelled as \<^typ>\<open>int\<close>. Quotients of two of them are
  taken in \<^typ>\<open>rat\<close>.
\<close>

definition INITIAL_BATCH_SIZE :: int where
  "INITIAL_BATCH_SIZE = 5"

definition LOAD_AHEAD_COUNT :: int where
  "LOAD_AHEAD_COUNT = 3"

definition PRELOAD_AHEAD_COUNT :: int where
  "PRELOAD_AHEAD_COUNT = 5"

definition TALL_IMAGE_THRESHOLD :: int where
  "TALL_IMAGE_THRESHOLD = 4"

definition CHUNK_HEIGHT_CM :: int where
  "CHUNK_HEIGHT_CM = 5"

definition PIXELS_PER_CM :: int where
  "PIXELS_PER_CM = 38"

definition CHUNK_HEIGHT_PX :: int where
  "CHUNK_HEIGHT_PX = CHUNK_HEIGHT_CM * PIXELS_PER_CM"

section \<open>Chunk planner\<close>

record ChunkData =
  chunkIndex :: int
  totalChunks :: int
  startY :: int
  chunkHeight :: int
  originalWidth :: int
  originalHeight :: int

text \<open>
  The test \<^verbatim>\<open>aspectRatio < TALL_IMAGE_THRESHOLD\<close> of \<^verbatim>\<open>calculateChunks\<close>, with
  \<^verbatim>\<open>aspectRatio = imgHeight / imgWidth\<close>. JavaScript division by zero gives an infinity
  or NaN where HOL gives 0, so that case is written out: for a zero width the quotient is
  \<^verbatim>\<open>-Infinity\<close> (below the threshold) when the height is negative, and \<^verbatim>\<open>Infinity\<close>
  or \<^verbatim>\<open>NaN\<close> (not below it) otherwise.
\<close>

definition aspectRatioBelowThreshold :: "int \<Rightarrow> int \<Rightarrow> bool" where
  "aspectRatioBelowThreshold imgWidth imgHeight =
     (if imgWidth = 0 then imgHeight < 0
      else (of_int imgHeight :: rat) / of_int imgWidth < of_int TALL_IMAGE_THRESHOLD)"

text \<open>The body of the \<^verbatim>\<open>for\<close> loop of \<^verbatim>\<open>calculateChunks\<close>: the chunk pushed at counter \<open>i\<close>.\<close>

definition chunkAt :: "int \<Rightarrow> int \<Rightarrow> int \<Rightarrow> int \<Rightarrow> ChunkData" where
  "chunkAt chunkCount imgWidth imgHeight i =
     (let startY = i * CHUNK_HEIGHT_PX;
          remainingHeight = imgHeight - startY;
          chunkHeight = min CHUNK_HEIGHT_PX remainingHeight
      in \<lparr> chunkIndex = i,
           totalChunks = chunkCount,
           startY = startY,
           chunkHeight = chunkHeight,
           originalWidth = imgWidth,
           originalHeight = imgHeight \<rparr>)"

text \<open>\<^verbatim>\<open>for (let i = 0; i < chunkCount; i++) { ... calculatedChunks.push(...) }\<close>\<close>

function chunkLoop :: "int \<Rightarrow> int \<Rightarrow> int \<Rightarrow> int \<Rightarrow> ChunkData list \<Rightarrow> ChunkData list" where
  "chunkLoop i chunkCount imgWidth imgHeight calculatedChunks =
     (if i < chunkCount
      then chunkLoop (i + 1) chunkCount imgWidth imgHeight
             (calculatedChunks @ [chunkAt chunkCount imgWidth imgHeight i])
      else calculatedChunks)"
  by pat_completeness auto
termination
  by (relation "measure (\<lambda>(i, chunkCount, _, _, _). nat (chunkCount - i))") auto

declare chunkLoop.simps [simp del]

definition calculateChunks :: "int \<Rightarrow> int \<Rightarrow> ChunkData list" where
  "calculateChunks imgWidth imgHeight =
     (if aspectRatioBelowThreshold imgWidth imgHeight then []
      else
        let chunkCount = \<lceil>(of_int imgHeight :: rat) / of_int CHUNK_HEIGHT_PX\<rceil>
        in chunkLoop 0 chunkCount imgWidth imgHeight [])"

section \<open>Page item: what a decoded image reports\<close>

datatype ImageFitMode = FitContain | FitCover | FitNone

text \<open>
  \<^verbatim>\<open>getContainerHeight\<close>. \<^verbatim>\<open>SCREEN_WIDTH\<close> and \<^verbatim>\<open>SCREEN_HEIGHT\<close> come from the device
  (\<^verbatim>\<open>Dimensions.get("window")\<close>) and are parameters here. Display heights are quotients,
  hence \<^typ>\<open>rat\<close>.
\<close>

definition getContainerHeight :: "rat \<Rightarrow> rat \<Rightarrow> int \<Rightarrow> int \<Rightarrow> ImageFitMode \<Rightarrow> rat" where
  "getContainerHeight SCREEN_WIDTH SCREEN_HEIGHT imgWidth imgHeight fitMode =
     (case fitMode of
        FitContain \<Rightarrow> (SCREEN_WIDTH / of_int imgWidth) * of_int imgHeight
      | FitCover \<Rightarrow> SCREEN_HEIGHT * (9 / 10)
      | FitNone \<Rightarrow> of_int imgHeight)"

text \<open>
  The state of one \<^verbatim>\<open>LitePageItem\<close> (its \<^verbatim>\<open>useState\<close> cells). The cells \<^verbatim>\<open>loading\<close>
  and \<^verbatim>\<open>error\<close> are named \<open>itemLoading\<close> and \<open>itemError\<close>: the screen has a
  \<^verbatim>\<open>loading\<close> cell of its own.
\<close>

record LitePageItem =
  itemLoading :: bool
  itemError :: bool
  imageReady :: bool
  height :: rat
  isTallImage :: bool
  chunks :: "ChunkData list"

definition newLitePageItem :: "rat \<Rightarrow> rat \<Rightarrow> ImageFitMode \<Rightarrow> LitePageItem" where
  "newLitePageItem SCREEN_WIDTH SCREEN_HEIGHT fitMode =
     \<lparr> itemLoading = True,
       itemError = False,
       imageReady = False,
       height = (if fitMode = FitCover then SCREEN_HEIGHT * (9 / 10) else SCREEN_WIDTH * (14 / 10)),
       isTallImage = False,
       chunks = [] \<rparr>"

text \<open>
  The \<^verbatim>\<open>onLoad\<close> handler of the page image, for a decoded source of size
  \<open>width\<close> by \<open>imgHeight\<close>. The second component is what is passed to
  \<^verbatim>\<open>onImageLoad\<close>: the reported height, and the tall flag with its chunks.
  \<^verbatim>\<open>if (width && imgHeight)\<close> is a test for non-zero numbers.
\<close>

definition onLoad ::
  "rat \<Rightarrow> rat \<Rightarrow> ImageFitMode \<Rightarrow> int \<Rightarrow> int \<Rightarrow> LitePageItem \<Rightarrow>
     LitePageItem \<times> (rat \<times> bool \<times> ChunkData list) option" where
  "onLoad SCREEN_WIDTH SCREEN_HEIGHT fitMode width imgHeight item =
     (let item1 = item\<lparr> itemLoading := False, imageReady := True \<rparr>
      in if width \<noteq> 0 \<and> imgHeight \<noteq> 0 then
           let calculatedChunks = calculateChunks width imgHeight
           in if length calculatedChunks > 0 then
                let scale = (if fitMode = FitNone then 1 else SCREEN_WIDTH / of_int width);
                    totalHeight = of_int imgHeight * scale
                in (item1\<lparr> isTallImage := True, chunks := calculatedChunks, height := totalHeight \<rparr>,
                    Some (totalHeight, True, calculatedChunks))
              else
                let newHeight = getContainerHeight SCREEN_WIDTH SCREEN_HEIGHT width imgHeight fitMode
                in (item1\<lparr> height := newHeight \<rparr>, Some (newHeight, False, []))
         else (item1, None))"

section \<open>The reader screen: state\<close>

datatype error = StorageFailure | SyntaxError | FetchError

record ReadingProgress =
  mangaId :: string
  chapterId :: string
  chapterNumber :: string
  page :: int
  totalPages :: int
  updatedAt :: int

text \<open>
  What the screen asks of its collaborators: \<^verbatim>\<open>flatListRef.current.scrollToIndex\<close> and
  \<^verbatim>\<open>Image.prefetch\<close>. A prefetch carries the list of URLs in the source; here each URL
  is paired with the index it was read at, so that requests can be compared by index. A
  read outside the array gives \<^verbatim>\<open>undefined\<close>, here \<open>None\<close>.
\<close>

datatype effect = ScrollToIndex int | Prefetch "(int \<times> string option) list"

definition urlAt :: "string list \<Rightarrow> int \<Rightarrow> string option" where
  "urlAt urls i = (if 0 \<le> i \<and> i < int (length urls) then Some (urls ! nat i) else None)"

text \<open>
  The \<^verbatim>\<open>useState\<close> cells and refs of \<^verbatim>\<open>LiteChapterReaderScreen\<close> that the batch boundary,
  the visible window, the restore of the saved position and the prefetch depend on. A
  \<^verbatim>\<open>Set<number>\<close> is a list without duplicates, in insertion order. \<open>effects\<close> is the log
  of the requests issued so far, oldest first. Timers (\<^verbatim>\<open>setTimeout\<close>) are not modelled:
  a handler's delayed body is run when the event is delivered.
\<close>

record ReaderState =
  allPageUrls :: "string list"
  loading :: bool
  currentPage :: int
  initialScrollDone :: bool
  visibleIndices :: "int list"
  loadedBatchEnd :: int
  savedStartPageRef :: int
  preloadedRef :: "int list"
  effects :: "effect list"

definition initialState :: ReaderState where
  "initialState =
     \<lparr> allPageUrls = [],
       loading = True,
       currentPage = 0,
       initialScrollDone = False,
       visibleIndices = [0, 1, 2],
       loadedBatchEnd = INITIAL_BATCH_SIZE,
       savedStartPageRef = 0,
       preloadedRef = [],
       effects = [] \<rparr>"

text \<open>\<^verbatim>\<open>Math.max(...visibleArray, 0)\<close> and \<^verbatim>\<open>Math.min(...visibleArray, 0)\<close>.\<close>

definition maxWithZero :: "int list \<Rightarrow> int" where
  "maxWithZero visibleArray = Max (set (visibleArray @ [0]))"

definition minWithZero :: "int list \<Rightarrow> int" where
  "minWithZero visibleArray = Min (set (visibleArray @ [0]))"

section \<open>Eligibility of a page\<close>

definition shouldLoadPage :: "ReaderState \<Rightarrow> int \<Rightarrow> bool" where
  "shouldLoadPage s idx =
     (if idx < loadedBatchEnd s then True
      else
        let visibleArray = visibleIndices s;
            maxVisible = maxWithZero visibleArray;
            minVisible = minWithZero visibleArray
        in idx \<ge> minVisible - 2 \<and> idx \<le> maxVisible + LOAD_AHEAD_COUNT)"

text \<open>
  The rule in the words of the specification, to compare with \<^const>\<open>shouldLoadPage\<close>:
  \<^verbatim>\<open>eligible(i) = i < loadedBatchBoundary OR (i >= minVisible - 2 AND i <= maxVisible + lookAheadCount)\<close>,
  with the minimum and the maximum of the set of visible indices and \<^verbatim>\<open>lookAheadCount = 3\<close>.
\<close>

definition eligible_spec :: "int \<Rightarrow> int list \<Rightarrow> int \<Rightarrow> bool" where
  "eligible_spec loadedBatchBoundary visible i =
     (i < loadedBatchBoundary \<or> (i \<ge> Min (set visible) - 2 \<and> i \<le> Max (set visible) + 3))"

section \<open>Prefetch\<close>

text \<open>
  The loop of \<^verbatim>\<open>preloadImages\<close>:
  \<^verbatim>\<open>for (let i = currentMax + 1; i <= currentMax + PRELOAD_AHEAD_COUNT && i < allPageUrls.length; i++)\<close>,
  threading \<^verbatim>\<open>toPreload\<close> and the set \<^verbatim>\<open>preloadedRef.current\<close>.
\<close>

function preloadLoop ::
  "int \<Rightarrow> int \<Rightarrow> string list \<Rightarrow> (int \<times> string option) list \<Rightarrow> int list \<Rightarrow>
     (int \<times> string option) list \<times> int list" where
  "preloadLoop i currentMax urls toPreload preloaded =
     (if i \<le> currentMax + PRELOAD_AHEAD_COUNT \<and> i < int (length urls) then
        (if i \<notin> set preloaded
         then preloadLoop (i + 1) currentMax urls (toPreload @ [(i, urlAt urls i)]) (preloaded @ [i])
         else preloadLoop (i + 1) currentMax urls toPreload preloaded)
      else (toPreload, preloaded))"
  by pat_completeness auto
termination
  by (relation "measure (\<lambda>(i, currentMax, _, _, _). nat (currentMax + PRELOAD_AHEAD_COUNT + 1 - i))") auto

declare preloadLoop.simps [simp del]

definition preloadImages :: "int \<Rightarrow> ReaderState \<Rightarrow> ReaderState" where
  "preloadImages currentMax s =
     (let (toPreload, preloaded) =
            preloadLoop (currentMax + 1) currentMax (allPageUrls s) [] (preloadedRef s)
      in s\<lparr> preloadedRef := preloaded,
            effects := (if length toPreload > 0 then effects s @ [Prefetch toPreload] else effects s) \<rparr>)"

section \<open>Effects and handlers of the screen\<close>

text \<open>
  The effect on \<^verbatim>\<open>[visibleIndices, allPageUrls.length]\<close> that grows the batch boundary and
  calls \<^verbatim>\<open>preloadImages\<close>.
\<close>

definition visibilityBatchEffect :: "ReaderState \<Rightarrow> ReaderState" where
  "visibilityBatchEffect s =
     (if length (allPageUrls s) = 0 then s
      else
        let currentVisible = visibleIndices s;
            maxVisible = maxWithZero currentVisible;
            newBatchEnd = min (int (length (allPageUrls s)))
                              (max (loadedBatchEnd s) (maxVisible + LOAD_AHEAD_COUNT + 1));
            s1 = (if newBatchEnd > loadedBatchEnd s then s\<lparr> loadedBatchEnd := newBatchEnd \<rparr> else s)
        in preloadImages maxVisible s1)"

text \<open>
  The effect on \<^verbatim>\<open>[loading, allPageUrls.length, initialScrollDone]\<close> that restores the saved
  position: its guard, and the body of its timer. The body reads only
  \<^verbatim>\<open>savedStartPageRef.current\<close>, which nothing writes between the guard and the timer
  but a new \<^verbatim>\<open>loadChapter\<close>. The list is mounted when the guard holds, so the
  \<^verbatim>\<open>scrollToIndex\<close> call is issued.
\<close>

definition restoreGuard :: "ReaderState \<Rightarrow> bool" where
  "restoreGuard s =
     (\<not> loading s \<and> length (allPageUrls s) > 0 \<and> \<not> initialScrollDone s \<and> savedStartPageRef s > 0)"

definition initialScrollRestore :: "ReaderState \<Rightarrow> ReaderState" where
  "initialScrollRestore s =
     (if restoreGuard s then
        let startIndex = savedStartPageRef s
        in s\<lparr> effects := effects s @ [ScrollToIndex (savedStartPageRef s)],
              initialScrollDone := True,
              visibleIndices := filter (\<lambda>i. i \<ge> 0) [startIndex - 1, startIndex, startIndex + 1],
              loadedBatchEnd := max INITIAL_BATCH_SIZE (startIndex + LOAD_AHEAD_COUNT + 1) \<rparr>
      else s)"

text \<open>
  \<^verbatim>\<open>onEndReached\<close>; the updater's \<^verbatim>\<open>prev\<close> is the current value of the cell.
\<close>

definition onEndReached :: "ReaderState \<Rightarrow> ReaderState" where
  "onEndReached s =
     (if loadedBatchEnd s < int (length (allPageUrls s))
      then s\<lparr> loadedBatchEnd :=
                min (int (length (allPageUrls s))) (loadedBatchEnd s + LOAD_AHEAD_COUNT) \<rparr>
      else s)"

definition onScrollToIndexFailed :: "int \<Rightarrow> ReaderState \<Rightarrow> ReaderState" where
  "onScrollToIndexFailed infoIndex s = s\<lparr> effects := effects s @ [ScrollToIndex infoIndex] \<rparr>"

record ViewToken =
  isViewable :: bool
  index :: "int option"

text \<open>The indices of the items with \<^verbatim>\<open>item.isViewable && item.index !== null\<close>, in order.\<close>

definition viewableIndicesOf :: "ViewToken list \<Rightarrow> int list" where
  "viewableIndicesOf viewableItems =
     List.map_filter (\<lambda>item. if isViewable item then index item else None) viewableItems"

text \<open>\<^verbatim>\<open>Set.prototype.add\<close> on the list representation.\<close>

definition setAdd :: "int \<Rightarrow> int list \<Rightarrow> int list" where
  "setAdd x xs = (if x \<in> set xs then xs else xs @ [x])"

definition onViewableItemsChanged :: "ViewToken list \<Rightarrow> ReaderState \<Rightarrow> ReaderState" where
  "onViewableItemsChanged viewableItems s =
     (let visible = fold setAdd (viewableIndicesOf viewableItems) []
      in if length visible > 0 then
           let viewableIndices = viewableIndicesOf viewableItems
           in if length viewableIndices > 0
              then s\<lparr> visibleIndices := visible,
                      currentPage := viewableIndices ! (length viewableIndices div 2) \<rparr>
              else s\<lparr> visibleIndices := visible \<rparr>
         else s)"

section \<open>Loading a chapter\<close>

text \<open>
  What \<^verbatim>\<open>loadChapter\<close> awaits: the saved progress, the pages of a downloaded copy
  (\<open>None\<close> when there is none), the answer of the API, and whether
  \<^verbatim>\<open>storage.markChapterAsRead\<close> fails. The settings it reads go to the volume hook only.
\<close>

record Fetched =
  savedProgress :: "ReadingProgress option"
  downloadedPages :: "string list option"
  apiPages :: "error + string list"
  markChapterAsReadFails :: bool

text \<open>
  \<^verbatim>\<open>loadChapter\<close> for the chapter \<open>routeChapterId\<close>, as the state once its promise has
  settled (\<^verbatim>\<open>finally\<close> clears \<^verbatim>\<open>loading\<close>). \<open>Inl\<close> for \<open>fetched\<close> is a rejection of the
  \<^verbatim>\<open>Promise.all\<close>; it and a failure of \<^verbatim>\<open>markChapterAsRead\<close> reach the outer \<^verbatim>\<open>catch\<close>.
  \<^verbatim>\<open>savedProgress.page || 0\<close> is the page itself on integers.
\<close>

definition loadChapter :: "string \<Rightarrow> error + Fetched \<Rightarrow> ReaderState \<Rightarrow> ReaderState" where
  "loadChapter routeChapterId fetched s0 =
     (let s1 = s0\<lparr> preloadedRef := [] \<rparr>
      in case fetched of
           Inl e \<Rightarrow> s1\<lparr> allPageUrls := [], loading := False \<rparr>
         | Inr f \<Rightarrow>
             let s2 = s1\<lparr> savedStartPageRef :=
                          (case savedProgress f of
                             Some p \<Rightarrow> if chapterId p = routeChapterId then page p else 0
                           | None \<Rightarrow> 0) \<rparr>;
                 fromApi = (case apiPages f of Inl apiError \<Rightarrow> [] | Inr ps \<Rightarrow> ps);
                 pageUrls = (case downloadedPages f of
                               Some ps \<Rightarrow> if length ps > 0 then ps else fromApi
                             | None \<Rightarrow> fromApi)
             in if length pageUrls > 0 then
                  let startPage = savedStartPageRef s2;
                      initialBatch = max INITIAL_BATCH_SIZE (startPage + LOAD_AHEAD_COUNT + 1);
                      preloadUrls = map (\<lambda>k. (int k, Some (pageUrls ! k)))
                                        [0..<min 3 (length pageUrls)];
                      s3 = s2\<lparr> allPageUrls := pageUrls,
                               loadedBatchEnd := min (int (length pageUrls)) initialBatch,
                               currentPage := startPage,
                               visibleIndices :=
                                 filter (\<lambda>i. i \<ge> 0 \<and> i < int (length pageUrls))
                                   [startPage - 1, startPage, startPage + 1],
                               initialScrollDone := False,
                               effects := effects s2 @ [Prefetch preloadUrls] \<rparr>
                  in if markChapterAsReadFails f
                     then s3\<lparr> allPageUrls := [], loading := False \<rparr>
                     else s3\<lparr> loading := False \<rparr>
                else s2\<lparr> allPageUrls := [], loading := False \<rparr>)"

text \<open>
  The same function in two steps, for what runs between them. The pages it settles on:
  those of the downloaded copy when it has any, else the answer of the API, else none.
\<close>

definition resolvedPageUrls :: "Fetched \<Rightarrow> string list" where
  "resolvedPageUrls f =
     (let fromApi = (case apiPages f of Inl apiError \<Rightarrow> [] | Inr ps \<Rightarrow> ps)
      in case downloadedPages f of
           Some ps \<Rightarrow> if length ps > 0 then ps else fromApi
         | None \<Rightarrow> fromApi)"

text \<open>
  \<^verbatim>\<open>loadChapter\<close> up to \<^verbatim>\<open>await storage.markChapterAsRead(...)\<close>: the cells are set and the
  first pages are requested, and the screen is rendered with these cells while the promise
  is pending. When the \<^verbatim>\<open>Promise.all\<close> is rejected, or when there are no pages, the function
  does not get to that call; then this is the state at the end of its \<^verbatim>\<open>try\<close> block.
\<close>

definition loadChapterCommit :: "string \<Rightarrow> error + Fetched \<Rightarrow> ReaderState \<Rightarrow> ReaderState" where
  "loadChapterCommit routeChapterId fetched s0 =
     (let s1 = s0\<lparr> preloadedRef := [] \<rparr>
      in case fetched of
           Inl e \<Rightarrow> s1
         | Inr f \<Rightarrow>
             let s2 = s1\<lparr> savedStartPageRef :=
                          (case savedProgress f of
                             Some p \<Rightarrow> if chapterId p = routeChapterId then page p else 0
                           | None \<Rightarrow> 0) \<rparr>;
                 pageUrls = resolvedPageUrls f
             in if length pageUrls > 0 then
                  let startPage = savedStartPageRef s2;
                      initialBatch = max INITIAL_BATCH_SIZE (startPage + LOAD_AHEAD_COUNT + 1);
                      preloadUrls = map (\<lambda>k. (int k, Some (pageUrls ! k)))
                                        [0..<min 3 (length pageUrls)]
                  in s2\<lparr> allPageUrls := pageUrls,
                          loadedBatchEnd := min (int (length pageUrls)) initialBatch,
                          currentPage := startPage,
                          visibleIndices :=
                            filter (\<lambda>i. i \<ge> 0 \<and> i < int (length pageUrls))
                              [startPage - 1, startPage, startPage + 1],
                          initialScrollDone := False,
                          effects := effects s2 @ [Prefetch preloadUrls] \<rparr>
                else s2\<lparr> allPageUrls := [] \<rparr>)"

text \<open>
  What \<^verbatim>\<open>catch\<close> and \<^verbatim>\<open>finally\<close> do once the awaited promise has settled: a rejection of
  the \<^verbatim>\<open>Promise.all\<close>, or of \<^verbatim>\<open>markChapterAsRead\<close> when it was called, empties the list of
  pages; \<^verbatim>\<open>loading\<close> is cleared in every case.
\<close>

definition loadChapterSettle :: "error + Fetched \<Rightarrow> ReaderState \<Rightarrow> ReaderState" where
  "loadChapterSettle fetched s =
     (case fetched of
        Inl e \<Rightarrow> s\<lparr> allPageUrls := [], loading := False \<rparr>
      | Inr f \<Rightarrow>
          if length (resolvedPageUrls f) > 0 \<and> markChapterAsReadFails f
          then s\<lparr> allPageUrls := [], loading := False \<rparr>
          else s\<lparr> loading := False \<rparr>)"

text \<open>
  Opening a chapter: the screen is mounted with its initial cells, \<^verbatim>\<open>loadChapter\<close> runs up
  to its last \<^verbatim>\<open>await\<close>, the effect on \<^verbatim>\<open>[visibleIndices, allPageUrls.length]\<close> runs on the
  cells it has set, and then \<^verbatim>\<open>loadChapter\<close> settles. When settling empties the list of
  pages the effect runs once more and returns at once, which changes nothing.
\<close>

definition openChapter :: "string \<Rightarrow> error + Fetched \<Rightarrow> ReaderState" where
  "openChapter routeChapterId fetched =
     loadChapterSettle fetched
       (visibilityBatchEffect (loadChapterCommit routeChapterId fetched initialState))"

section \<open>Events of a session\<close>

text \<open>
  What the list and the timers deliver after the chapter is open. The cells that one
  handler sets are updated together, the screen is rendered with them, and then the
  effects whose dependencies changed run. A handler that sets \<^verbatim>\<open>visibleIndices\<close> (always
  to a new \<^verbatim>\<open>Set\<close>) therefore makes the effect on it run once the handler is done.
\<close>

datatype event =
  ViewableItemsChanged "ViewToken list"
| EndReached
| RestoreTimer
| ScrollToIndexFailed int

fun step :: "event \<Rightarrow> ReaderState \<Rightarrow> ReaderState" where
  "step (ViewableItemsChanged viewableItems) s =
     (if length (fold setAdd (viewableIndicesOf viewableItems) []) > 0
      then visibilityBatchEffect (onViewableItemsChanged viewableItems s)
      else onViewableItemsChanged viewableItems s)"
| "step EndReached s = onEndReached s"
| "step RestoreTimer s =
     (if restoreGuard s then visibilityBatchEffect (initialScrollRestore s)
      else initialScrollRestore s)"
| "step (ScrollToIndexFailed infoIndex) s = onScrollToIndexFailed infoIndex s"

definition run :: "event list \<Rightarrow> ReaderState \<Rightarrow> ReaderState" where
  "run es s = fold step es s"

text \<open>The indices requested by the prefetches of a log, and its scroll commands.\<close>

fun prefetchedIndices :: "effect list \<Rightarrow> int list" where
  "prefetchedIndices [] = []"
| "prefetchedIndices (Prefetch reqs # es) = map fst reqs @ prefetchedIndices es"
| "prefetchedIndices (ScrollToIndex i # es) = prefetchedIndices es"

fun scrollCommands :: "effect list \<Rightarrow> int list" where
  "scrollCommands [] = []"
| "scrollCommands (ScrollToIndex i # es) = i # scrollCommands es"
| "scrollCommands (Prefetch reqs # es) = scrollCommands es"

fun failedIndices :: "event list \<Rightarrow> int list" where
  "failedIndices [] = []"
| "failedIndices (ScrollToIndexFailed i # es) = i # failedIndices es"
| "failedIndices (e # es) = failedIndices es"

text \<open>The indices whose prefetch is requested between a state and a later one.\<close>

definition requestedSince :: "ReaderState \<Rightarrow> ReaderState \<Rightarrow> int list" where
  "requestedSince s s' = prefetchedIndices (drop (length (effects s)) (effects s'))"

text \<open>
  The indices that the loop of \<^verbatim>\<open>preloadImages\<close> adds when it starts at \<open>i\<close>: those from
  \<open>i\<close> up to \<open>currentMax + PRELOAD_AHEAD_COUNT\<close> and below the number of pages that are not
  in the seen-set. It is a closed form for the proofs, shown equal to what
  \<^const>\<open>preloadLoop\<close> computes.
\<close>

definition newIndices :: "int \<Rightarrow> int \<Rightarrow> string list \<Rightarrow> int list \<Rightarrow> int list" where
  "newIndices i currentMax urls preloaded =
     filter (\<lambda>j. j \<notin> set preloaded)
       [i..min (currentMax + PRELOAD_AHEAD_COUNT) (int (length urls) - 1)]"

section \<open>Volume keys as scroll commands\<close>

text \<open>
  \<^verbatim>\<open>src/hooks/useVolumeScroll.ts\<close>. Volume levels are numbers between 0 and 1, modelled as
  \<^typ>\<open>rat\<close>. \<open>emitted\<close> is the log of what \<^verbatim>\<open>handleVolumeChange\<close> calls: the two scroll
  callbacks and \<^verbatim>\<open>VolumeManager.setVolume\<close>, whose failure the handler ignores.
\<close>

datatype volumeCall = ScrollUp | ScrollDown | SetVolume rat

record VolumeScroll =
  lastVolumeRef :: "rat option"
  isHandlingRef :: bool
  emitted :: "volumeCall list"

definition handleVolumeChange :: "bool \<Rightarrow> rat \<Rightarrow> VolumeScroll \<Rightarrow> VolumeScroll" where
  "handleVolumeChange enabled newVolume v =
     (if \<not> enabled \<or> isHandlingRef v then v
      else
        case lastVolumeRef v of
          Some lastVolume \<Rightarrow>
            let volumeDiff = newVolume - lastVolume
            in if \<bar>volumeDiff\<bar> > 1 / 1000 then
                 v\<lparr> isHandlingRef := True,
                     emitted := emitted v @
                       [if volumeDiff > 0 then ScrollDown else ScrollUp, SetVolume lastVolume] \<rparr>
               else v\<lparr> lastVolumeRef := Some newVolume \<rparr>
        | None \<Rightarrow> v\<lparr> lastVolumeRef := Some newVolume \<rparr>)"

text \<open>The timer set by the handler, 100 ms later.\<close>

definition releaseHandling :: "VolumeScroll \<Rightarrow> VolumeScroll" where
  "releaseHandling v = v\<lparr> isHandlingRef := False \<rparr>"

section \<open>Saving the reading progress\<close>

text \<open>
  \<^verbatim>\<open>saveReadingProgress\<close> of \<^verbatim>\<open>src/services/storage.ts\<close>. The store and the JSON codec
  are outside the repository; each call that can throw is a parameter giving its outcome:
  \<^verbatim>\<open>AsyncStorage.getItem\<close> (the stored text, \<open>None\<close> for \<^verbatim>\<open>null\<close>), \<^verbatim>\<open>JSON.parse\<close>,
  \<^verbatim>\<open>JSON.stringify\<close>, \<^verbatim>\<open>AsyncStorage.setItem\<close> and the clock \<^verbatim>\<open>Date.now()\<close>.
\<close>

record Storage =
  getItem :: "string \<Rightarrow> error + string option"
  JSON_parse :: "string \<Rightarrow> error + (string \<rightharpoonup> ReadingProgress)"
  JSON_stringify :: "(string \<rightharpoonup> ReadingProgress) \<Rightarrow> error + string"
  setItem :: "string \<Rightarrow> string \<Rightarrow> error + unit"
  now :: int

definition READING_PROGRESS :: string where
  "READING_PROGRESS = ''@mangareader_progress''"

text \<open>
  What an \<^verbatim>\<open>async\<close> function leaves behind: whether its promise is fulfilled (\<open>Inr\<close>) or
  rejected (\<open>Inl\<close>), the item it has written, and what it has logged.
\<close>

record SaveOutcome =
  settled :: "error + unit"
  written :: "(string \<times> string) option"
  logged :: "string list"

text \<open>The \<^verbatim>\<open>try\<close> block: the first failure leaves it.\<close>

definition saveTryBlock :: "Storage \<Rightarrow> ReadingProgress \<Rightarrow> error + (string \<times> string)" where
  "saveTryBlock st progress =
     (case getItem st READING_PROGRESS of
        Inl e \<Rightarrow> Inl e
      | Inr data \<Rightarrow>
          (case (case data of
                   None \<Rightarrow> Inr Map.empty
                 | Some text \<Rightarrow> if text = [] then Inr Map.empty else JSON_parse st text) of
             Inl e \<Rightarrow> Inl e
           | Inr allProgress \<Rightarrow>
               (case JSON_stringify st
                       (allProgress(mangaId progress \<mapsto> progress\<lparr> updatedAt := now st \<rparr>)) of
                  Inl e \<Rightarrow> Inl e
                | Inr json \<Rightarrow>
                    (case setItem st READING_PROGRESS json of
                       Inl e \<Rightarrow> Inl e
                     | Inr u \<Rightarrow> Inr (READING_PROGRESS, json)))))"

text \<open>\<^verbatim>\<open>try { ... } catch (error) { console.error(...) }\<close>\<close>

definition saveReadingProgress :: "Storage \<Rightarrow> ReadingProgress \<Rightarrow> SaveOutcome" where
  "saveReadingProgress st progress =
     (case saveTryBlock st progress of
        Inr item \<Rightarrow> \<lparr> settled = Inr (), written = Some item, logged = [] \<rparr>
      | Inl e \<Rightarrow>
          \<lparr> settled = Inr (), written = None,
            logged = [''Failed to save reading progress:''] \<rparr>)"

text \<open>
  The caller in the reader, \<^verbatim>\<open>saveProgress\<close>, run by \<^verbatim>\<open>handleScrollEnd\<close>: it awaits
  \<^verbatim>\<open>storage.saveReadingProgress\<close> with no handler of its own, so it settles as that does.
\<close>

definition saveProgress ::
  "Storage \<Rightarrow> string \<Rightarrow> string \<Rightarrow> string \<Rightarrow> ReaderState \<Rightarrow> int \<Rightarrow> error + unit" where
  "saveProgress st routeMangaId routeChapterId routeChapterNumber s pageNow =
     (if length (allPageUrls s) = 0 then Inr ()
      else settled (saveReadingProgress st
             \<lparr> mangaId = routeMangaId,
               chapterId = routeChapterId,
               chapterNumber = routeChapterNumber,
               page = pageNow,
               totalPages = int (length (allPageUrls s)),
               updatedAt = now st \<rparr>))"

section \<open>Properties of the chunk planner\<close>

lemma chunkLoop_upto:
  "chunkLoop i n w h acc = acc @ map (chunkAt n w h) [i..n - 1]"
proof (induction i n w h acc rule: chunkLoop.induct)
  case (1 i n w h acc)
  show ?case
  proof (cases "i < n")
    case True
    then have "[i..n - 1] = i # [i + 1..n - 1]"
      by (simp add: upto_rec1)
    with True "1" show ?thesis
      by (simp add: chunkLoop.simps [of i])
  next
    case False
    then show ?thesis
      by (simp add: chunkLoop.simps [of i])
  qed
qed

lemma chunkCount_bounds:
  assumes "0 < h"
  shows "1 \<le> \<lceil>(of_int h :: rat) / of_int CHUNK_HEIGHT_PX\<rceil>"
    and "CHUNK_HEIGHT_PX * (\<lceil>(of_int h :: rat) / of_int CHUNK_HEIGHT_PX\<rceil> - 1) < h"
    and "h \<le> CHUNK_HEIGHT_PX * \<lceil>(of_int h :: rat) / of_int CHUNK_HEIGHT_PX\<rceil>"
proof -
  define q where "q = (- h) div 190"
  have c: "CHUNK_HEIGHT_PX = 190"
    by (simp add: CHUNK_HEIGHT_PX_def CHUNK_HEIGHT_CM_def PIXELS_PER_CM_def)
  have e: "\<lceil>(of_int h :: rat) / of_int 190\<rceil> = - q"
    unfolding q_def by (rule ceiling_divide_eq_div)
  define r where "r = (- h) mod 190"
  have m: "190 * q + r = - h"
    unfolding q_def r_def by (rule mult_div_mod_eq)
  have lo: "0 \<le> r" and hi: "r < 190"
    unfolding r_def by simp_all
  show "1 \<le> \<lceil>(of_int h :: rat) / of_int CHUNK_HEIGHT_PX\<rceil>"
    unfolding c e using assms m lo hi by linarith
  show "CHUNK_HEIGHT_PX * (\<lceil>(of_int h :: rat) / of_int CHUNK_HEIGHT_PX\<rceil> - 1) < h"
    unfolding c e using m lo hi by (simp add: algebra_simps)
  show "h \<le> CHUNK_HEIGHT_PX * \<lceil>(of_int h :: rat) / of_int CHUNK_HEIGHT_PX\<rceil>"
    unfolding c e using m lo hi by (simp add: algebra_simps)
qed

lemma chunkAt_fields [simp]:
  "startY (chunkAt n w h i) = i * CHUNK_HEIGHT_PX"
  "chunkHeight (chunkAt n w h i) = min CHUNK_HEIGHT_PX (h - i * CHUNK_HEIGHT_PX)"
  "chunkIndex (chunkAt n w h i) = i"
  "totalChunks (chunkAt n w h i) = n"
  by (simp_all add: chunkAt_def Let_def)

lemma full_chunks_sum:
  assumes "- 1 \<le> m" "CHUNK_HEIGHT_PX * (m + 1) \<le> h"
  shows "sum_list (map (\<lambda>i. chunkHeight (chunkAt n w h i)) [0..m]) = CHUNK_HEIGHT_PX * (m + 1)"
  using assms
proof (induction m rule: int_ge_induct)
  case base
  then show ?case by simp
next
  case (step m)
  have pos: "0 < CHUNK_HEIGHT_PX"
    by (simp add: CHUNK_HEIGHT_PX_def CHUNK_HEIGHT_CM_def PIXELS_PER_CM_def)
  from step.prems have le: "CHUNK_HEIGHT_PX * (m + 1) + CHUNK_HEIGHT_PX \<le> h"
    by (simp add: algebra_simps)
  with pos have "CHUNK_HEIGHT_PX * (m + 1) \<le> h" by linarith
  with step.IH have IH: "sum_list (map (\<lambda>i. chunkHeight (chunkAt n w h i)) [0..m]) = CHUNK_HEIGHT_PX * (m + 1)"
    by simp
  from step.hyps have split: "[0..m + 1] = [0..m] @ [m + 1]"
    by (simp add: upto_rec2)
  have "min CHUNK_HEIGHT_PX (h - (m + 1) * CHUNK_HEIGHT_PX) = CHUNK_HEIGHT_PX"
    using le by (simp add: algebra_simps)
  with IH split show ?case
    by (simp add: algebra_simps)
qed


lemma CHUNK_HEIGHT_PX_pos: "0 < CHUNK_HEIGHT_PX"
  by (simp add: CHUNK_HEIGHT_PX_def CHUNK_HEIGHT_CM_def PIXELS_PER_CM_def)

lemma calculateChunks_map:
  assumes "\<not> aspectRatioBelowThreshold w h"
  shows "calculateChunks w h =
           map (chunkAt \<lceil>(of_int h :: rat) / of_int CHUNK_HEIGHT_PX\<rceil> w h)
             [0..\<lceil>(of_int h :: rat) / of_int CHUNK_HEIGHT_PX\<rceil> - 1]"
  using assms by (simp add: calculateChunks_def Let_def chunkLoop_upto)

lemma aspectRatioBelowThreshold_pos:
  "0 < w \<Longrightarrow>
   aspectRatioBelowThreshold w h \<longleftrightarrow> (of_int h :: rat) / of_int w < of_int TALL_IMAGE_THRESHOLD"
  by (simp add: aspectRatioBelowThreshold_def)

text \<open>
  Claim C2. For an intrinsic size with positive width \<open>w\<close> and height \<open>h\<close>: when
  \<open>h / w\<close> is at least the tall-image threshold, the chunk list is not empty, the first
  chunk starts at 0, every chunk but the last has the height \<^const>\<open>CHUNK_HEIGHT_PX\<close> and
  the next chunk starts where it ends (the ranges \<open>[startY, startY + chunkHeight)\<close> are
  contiguous and do not overlap), the last chunk has a positive height of at most
  \<^const>\<open>CHUNK_HEIGHT_PX\<close>, and the heights add up to \<open>h\<close>; when \<open>h / w\<close> is below the
  threshold there is no chunk.
\<close>

theorem calculateChunks_tiles_height:
  assumes "0 < w" and "0 < h"
  shows "(of_int TALL_IMAGE_THRESHOLD \<le> (of_int h :: rat) / of_int w \<longrightarrow>
            calculateChunks w h \<noteq> [] \<and>
            startY (calculateChunks w h ! 0) = 0 \<and>
            (\<forall>k. Suc k < length (calculateChunks w h) \<longrightarrow>
               chunkHeight (calculateChunks w h ! k) = CHUNK_HEIGHT_PX \<and>
               startY (calculateChunks w h ! Suc k) =
                 startY (calculateChunks w h ! k) + chunkHeight (calculateChunks w h ! k)) \<and>
            0 < chunkHeight (last (calculateChunks w h)) \<and>
            chunkHeight (last (calculateChunks w h)) \<le> CHUNK_HEIGHT_PX \<and>
            sum_list (map chunkHeight (calculateChunks w h)) = h) \<and>
         ((of_int h :: rat) / of_int w < of_int TALL_IMAGE_THRESHOLD \<longrightarrow>
            calculateChunks w h = [])"
proof (intro conjI impI)
  assume "(of_int h :: rat) / of_int w < of_int TALL_IMAGE_THRESHOLD"
  with \<open>0 < w\<close> show "calculateChunks w h = []"
    by (simp add: calculateChunks_def aspectRatioBelowThreshold_pos)
next
  assume tall: "of_int TALL_IMAGE_THRESHOLD \<le> (of_int h :: rat) / of_int w"
  define n where "n = \<lceil>(of_int h :: rat) / of_int CHUNK_HEIGHT_PX\<rceil>"
  define cs where "cs = calculateChunks w h"
  from tall \<open>0 < w\<close> have "\<not> aspectRatioBelowThreshold w h"
    by (simp add: aspectRatioBelowThreshold_pos)
  then have cs: "cs = map (chunkAt n w h) [0..n - 1]"
    unfolding cs_def n_def by (rule calculateChunks_map)
  have n1: "1 \<le> n" and lo: "CHUNK_HEIGHT_PX * (n - 1) < h" and hi: "h \<le> CHUNK_HEIGHT_PX * n"
    unfolding n_def using chunkCount_bounds [OF \<open>0 < h\<close>] by simp_all
  have len: "length cs = nat n"
    using n1 by (simp add: cs)
  have nth: "cs ! k = chunkAt n w h (int k)" if "k < nat n" for k
    using that by (simp add: cs)
  have full: "chunkHeight (cs ! k) = CHUNK_HEIGHT_PX" if "Suc k < nat n" for k
  proof -
    from that have "int k + 1 \<le> n - 1" by linarith
    then have "CHUNK_HEIGHT_PX * (int k + 1) \<le> CHUNK_HEIGHT_PX * (n - 1)"
      using CHUNK_HEIGHT_PX_pos by (simp add: mult_left_mono)
    with lo have "CHUNK_HEIGHT_PX * (int k + 1) < h" by linarith
    then have "CHUNK_HEIGHT_PX \<le> h - int k * CHUNK_HEIGHT_PX"
      by (simp add: algebra_simps)
    with that show ?thesis by (simp add: nth)
  qed
  have lastc: "last cs = chunkAt n w h (n - 1)"
    using n1 by (simp add: cs last_map upto_rec2)
  have hlast: "chunkHeight (last cs) = h - CHUNK_HEIGHT_PX * (n - 1)"
    using hi by (simp add: lastc algebra_simps)
  show "calculateChunks w h \<noteq> []"
    using len n1 unfolding cs_def by auto
  show "startY (calculateChunks w h ! 0) = 0"
    using n1 nth [of 0] unfolding cs_def by simp
  show "\<forall>k. Suc k < length (calculateChunks w h) \<longrightarrow>
          chunkHeight (calculateChunks w h ! k) = CHUNK_HEIGHT_PX \<and>
          startY (calculateChunks w h ! Suc k) =
            startY (calculateChunks w h ! k) + chunkHeight (calculateChunks w h ! k)"
  proof (intro allI impI)
    fix k
    assume "Suc k < length (calculateChunks w h)"
    then have k: "Suc k < nat n" by (simp add: len [unfolded cs_def])
    then have "k < nat n" by simp
    with k full [OF k] show "chunkHeight (calculateChunks w h ! k) = CHUNK_HEIGHT_PX \<and>
          startY (calculateChunks w h ! Suc k) =
            startY (calculateChunks w h ! k) + chunkHeight (calculateChunks w h ! k)"
      unfolding cs_def [symmetric] by (simp add: nth algebra_simps)
  qed
  show "0 < chunkHeight (last (calculateChunks w h))"
    using lo hlast unfolding cs_def by simp
  show "chunkHeight (last (calculateChunks w h)) \<le> CHUNK_HEIGHT_PX"
    using hi hlast unfolding cs_def by (simp add: algebra_simps)
  show "sum_list (map chunkHeight (calculateChunks w h)) = h"
  proof -
    have split: "[0..n - 1] = [0..n - 2] @ [n - 1]"
      using n1 upto_rec2 [of 0 "n - 1"] by simp
    have "sum_list (map (\<lambda>i. chunkHeight (chunkAt n w h i)) [0..n - 2]) = CHUNK_HEIGHT_PX * (n - 2 + 1)"
      using n1 lo by (intro full_chunks_sum) simp_all
    then have "sum_list (map chunkHeight cs) = CHUNK_HEIGHT_PX * (n - 1) + chunkHeight (chunkAt n w h (n - 1))"
      by (simp add: cs split comp_def del: chunkAt_fields)
    also have "\<dots> = h"
      using hlast lastc by simp
    finally show ?thesis unfolding cs_def .
  qed
qed

theorem calculateChunks_tiles_height_witness:
  "(0::int) < 100 \<and> (0::int) < 400 \<and> calculateChunks 100 400 \<noteq> [] \<and>
   sum_list (map chunkHeight (calculateChunks 100 400)) = 400 \<and>
   calculateChunks 100 399 = []"
  using calculateChunks_tiles_height [of 100 400] calculateChunks_tiles_height [of 100 399]
  by (simp add: TALL_IMAGE_THRESHOLD_def)

lemma calculateChunks_nonempty:
  assumes "0 < h" and "\<not> aspectRatioBelowThreshold w h"
  shows "calculateChunks w h \<noteq> []"
proof -
  have "1 \<le> \<lceil>(of_int h :: rat) / of_int CHUNK_HEIGHT_PX\<rceil>"
    using assms(1) by (rule chunkCount_bounds)
  then have "[0..\<lceil>(of_int h :: rat) / of_int CHUNK_HEIGHT_PX\<rceil> - 1] \<noteq> []"
    by simp
  then show ?thesis
    by (simp add: calculateChunks_map [OF assms(2)])
qed

lemma onLoad_isTallImage:
  assumes "width \<noteq> 0" and "imgHeight \<noteq> 0"
  shows "isTallImage (fst (onLoad sw sh fitMode width imgHeight item)) =
           (calculateChunks width imgHeight \<noteq> [] \<or> isTallImage item)"
    and "calculateChunks width imgHeight \<noteq> [] \<Longrightarrow>
           chunks (fst (onLoad sw sh fitMode width imgHeight item)) = calculateChunks width imgHeight"
  using assms by (auto simp add: onLoad_def Let_def)

text \<open>
  Claim C4, as amended. For every intrinsic size with positive width whose ratio
  \<open>h / w\<close> is exactly the threshold 4, the image is tall: \<^const>\<open>calculateChunks\<close> returns
  chunks, and \<^const>\<open>onLoad\<close> sets \<open>isTallImage\<close> and stores them. The code returns no chunk
  only when \<^verbatim>\<open>aspectRatio < TALL_IMAGE_THRESHOLD\<close>, which excludes the boundary.
\<close>

theorem ratio_at_threshold_is_tall:
  assumes "0 < w" and "(of_int h :: rat) / of_int w = of_int TALL_IMAGE_THRESHOLD"
  shows "calculateChunks w h \<noteq> [] \<and>
         isTallImage (fst (onLoad sw sh fitMode w h item)) \<and>
         chunks (fst (onLoad sw sh fitMode w h item)) = calculateChunks w h"
proof -
  from assms have "(of_int h :: rat) = of_int (TALL_IMAGE_THRESHOLD * w)"
    by (simp add: field_simps)
  then have h: "h = TALL_IMAGE_THRESHOLD * w"
    by (simp only: of_int_eq_iff)
  with \<open>0 < w\<close> have "0 < h"
    by (simp add: TALL_IMAGE_THRESHOLD_def)
  moreover from assms have "\<not> aspectRatioBelowThreshold w h"
    by (simp add: aspectRatioBelowThreshold_pos)
  ultimately have ne: "calculateChunks w h \<noteq> []"
    by (rule calculateChunks_nonempty)
  from \<open>0 < w\<close> \<open>0 < h\<close> have "w \<noteq> 0" "h \<noteq> 0" by simp_all
  with ne show ?thesis
    by (simp add: onLoad_isTallImage)
qed

theorem ratio_at_threshold_is_tall_witness:
  "(0::int) < 100 \<and> (of_int 400 :: rat) / of_int 100 = of_int TALL_IMAGE_THRESHOLD \<and>
   calculateChunks 100 400 \<noteq> [] \<and>
   isTallImage (fst (onLoad 360 640 FitContain 100 400 (newLitePageItem 360 640 FitContain)))"
  using ratio_at_threshold_is_tall [of 100 400 360 640 FitContain "newLitePageItem 360 640 FitContain"]
  by (simp add: TALL_IMAGE_THRESHOLD_def)

text \<open>
  The claim as stated fails: a 100 by 400 image has ratio exactly 4, gets three chunks and
  is flagged tall.
\<close>

theorem ratio_at_threshold_counterexample:
  "(of_int 400 :: rat) / of_int 100 = 4 \<and>
   length (calculateChunks 100 400) = 3 \<and>
   isTallImage (fst (onLoad 360 640 FitContain 100 400 (newLitePageItem 360 640 FitContain))) = True"
proof -
  have below: "\<not> aspectRatioBelowThreshold 100 400"
    by (simp add: aspectRatioBelowThreshold_def TALL_IMAGE_THRESHOLD_def)
  have c: "CHUNK_HEIGHT_PX = 190"
    by (simp add: CHUNK_HEIGHT_PX_def CHUNK_HEIGHT_CM_def PIXELS_PER_CM_def)
  have "\<lceil>(of_int 400 :: rat) / of_int CHUNK_HEIGHT_PX\<rceil> = 3"
    unfolding c by (subst ceiling_divide_eq_div) simp
  then have len: "length (calculateChunks 100 400) = 3"
    by (simp add: calculateChunks_map [OF below])
  then have "calculateChunks 100 400 \<noteq> []" by auto
  with len show ?thesis
    by (simp add: onLoad_isTallImage)
qed

section \<open>Properties of the eligibility test\<close>

lemma minWithZero_eq: "minWithZero vs = Min (set vs \<union> {0})"
  by (simp add: minWithZero_def)

lemma maxWithZero_eq: "maxWithZero vs = Max (set vs \<union> {0})"
  by (simp add: maxWithZero_def)

lemma minWithZero_le_0: "minWithZero vs \<le> 0"
  by (simp add: minWithZero_def)

lemma maxWithZero_ge_0: "0 \<le> maxWithZero vs"
  by (simp add: maxWithZero_def)

lemma maxWithZero_ge_Max: "vs \<noteq> [] \<Longrightarrow> Max (set vs) \<le> maxWithZero vs"
  by (simp add: maxWithZero_def)

text \<open>
  Claim C10. The eligibility test takes the minimum and the maximum of the visible indices
  together with 0. For a non-empty visible set of non-negative indices and every index
  \<open>i\<close> with \<open>0 \<le> i \<le> maxVisible + 3\<close>, \<^const>\<open>shouldLoadPage\<close> is true, whatever the batch
  boundary and however far \<open>i\<close> lies below the smallest visible index.
\<close>

theorem shouldLoadPage_lower_bound_never_excludes:
  assumes "visibleIndices s \<noteq> []"
    and "\<forall>v\<in>set (visibleIndices s). 0 \<le> v"
    and "0 \<le> i"
    and "i \<le> Max (set (visibleIndices s)) + 3"
  shows "minWithZero (visibleIndices s) = Min (set (visibleIndices s) \<union> {0}) \<and>
         maxWithZero (visibleIndices s) = Max (set (visibleIndices s) \<union> {0}) \<and>
         shouldLoadPage s i"
proof -
  have "minWithZero (visibleIndices s) - 2 \<le> i"
    using minWithZero_le_0 [of "visibleIndices s"] \<open>0 \<le> i\<close> by linarith
  moreover have "i \<le> maxWithZero (visibleIndices s) + LOAD_AHEAD_COUNT"
    using maxWithZero_ge_Max [OF assms(1)] assms(4) by (simp add: LOAD_AHEAD_COUNT_def)
  ultimately have "shouldLoadPage s i"
    by (simp add: shouldLoadPage_def Let_def)
  then show ?thesis
    by (simp add: minWithZero_eq maxWithZero_eq)
qed

theorem shouldLoadPage_lower_bound_never_excludes_witness:
  "(0::int) \<le> 6 \<and> (6::int) \<le> Max (set [10, 11, 12]) + 3 \<and>
   minWithZero [10, 11, 12] = 0 \<and>
   shouldLoadPage (initialState\<lparr> visibleIndices := [10, 11, 12], loadedBatchEnd := 5 \<rparr>) 6"
  using shouldLoadPage_lower_bound_never_excludes
          [of "initialState\<lparr> visibleIndices := [10, 11, 12], loadedBatchEnd := 5 \<rparr>" 6]
  by (simp add: minWithZero_def)

text \<open>
  Claim C1 at a state the screen reaches. A chapter of 20 pages is opened with no saved
  progress, which leaves the batch boundary at 5; the list then reports the items 10, 11
  and 12 as viewable, and the screen is rendered before the effect on the visible set has
  run. Page 7 is not below the boundary and lies outside the window of the specification
  (\<open>7 < 10 - 2\<close>), yet \<^const>\<open>shouldLoadPage\<close> accepts it: its lower bound is taken from
  \<^verbatim>\<open>Math.min(...visibleArray, 0)\<close>, which is 0.
\<close>

theorem shouldLoadPage_accepts_page_below_window:
  "(let s = onViewableItemsChanged
              [\<lparr>isViewable = True, index = Some 10\<rparr>, \<lparr>isViewable = True, index = Some 11\<rparr>,
               \<lparr>isViewable = True, index = Some 12\<rparr>]
              (openChapter ''c''
                 (Inr \<lparr>savedProgress = None, downloadedPages = None,
                       apiPages = Inr (replicate 20 ''p''), markChapterAsReadFails = False\<rparr>))
    in loadedBatchEnd s = 5 \<and> visibleIndices s = [10, 11, 12] \<and>
       shouldLoadPage s 7 = True \<and>
       eligible_spec (loadedBatchEnd s) (visibleIndices s) 7 = False)"
  by code_simp

section \<open>Properties of loading, the volume keys and saving\<close>

text \<open>
  Claim C5, as amended. Loading a sequence of 20 pages with no saved progress sets the
  batch boundary to 5, the initial batch size, and seeds the visible window with the
  indices 0 and 1: the window is the start page with its two neighbours, cut to the bounds
  of the sequence. The set \<open>{0, 1, 2}\<close> is only the value of the cell before any load.
\<close>

theorem loadChapter_without_saved_progress:
  assumes "length urls = 20"
  shows "loadedBatchEnd
           (loadChapter cid
              (Inr \<lparr>savedProgress = None, downloadedPages = None,
                    apiPages = Inr urls, markChapterAsReadFails = False\<rparr>) s0) = 5 \<and>
         INITIAL_BATCH_SIZE = 5 \<and>
         visibleIndices
           (loadChapter cid
              (Inr \<lparr>savedProgress = None, downloadedPages = None,
                    apiPages = Inr urls, markChapterAsReadFails = False\<rparr>) s0) = [0, 1] \<and>
         visibleIndices initialState = [0, 1, 2]"
  using assms
  by (auto simp add: loadChapter_def Let_def initialState_def INITIAL_BATCH_SIZE_def
        LOAD_AHEAD_COUNT_def)

theorem loadChapter_without_saved_progress_witness:
  "length (replicate 20 ''p'') = 20 \<and>
   set (visibleIndices
          (loadChapter ''c''
             (Inr \<lparr>savedProgress = None, downloadedPages = None,
                   apiPages = Inr (replicate 20 ''p''), markChapterAsReadFails = False\<rparr>)
             initialState)) = {0, 1}"
  using loadChapter_without_saved_progress [of "replicate 20 ''p''" "''c''" initialState]
  by simp

text \<open>The claim as stated fails: index 2 is not in the window that the load seeds.\<close>

theorem loadChapter_without_saved_progress_counterexample:
  "\<not> (loadedBatchEnd
          (loadChapter ''c''
             (Inr \<lparr>savedProgress = None, downloadedPages = None,
                   apiPages = Inr (replicate 20 ''p''), markChapterAsReadFails = False\<rparr>)
             initialState) = 5 \<and>
        set (visibleIndices
               (loadChapter ''c''
                  (Inr \<lparr>savedProgress = None, downloadedPages = None,
                        apiPages = Inr (replicate 20 ''p''), markChapterAsReadFails = False\<rparr>)
                  initialState)) = {0, 1, 2})"
  by code_simp

text \<open>
  Claim C8. With volume scrolling enabled, no handling in progress and a last known
  level of 0.50, a change to 0.45 makes the handler call the scroll-up callback once and
  nothing else but \<^verbatim>\<open>setVolume(0.50)\<close>, in that one invocation; it takes the lock, under
  which a further change (such as the one the reset causes) is ignored. A change whose
  difference from the last known level is at most 0.001 in absolute value calls nothing.
\<close>

theorem handleVolumeChange_decrease_scrolls_up_once:
  "(lastVolumeRef v = Some (50 / 100) \<and> \<not> isHandlingRef v \<longrightarrow>
      handleVolumeChange True (45 / 100) v =
        v\<lparr> isHandlingRef := True, emitted := emitted v @ [ScrollUp, SetVolume (50 / 100)] \<rparr> \<and>
      handleVolumeChange True newVolume (handleVolumeChange True (45 / 100) v) =
        handleVolumeChange True (45 / 100) v) \<and>
   (lastVolumeRef v = Some lastVolume \<and> \<bar>newVolume - lastVolume\<bar> \<le> 1 / 1000 \<longrightarrow>
      emitted (handleVolumeChange enabled newVolume v) = emitted v)"
  by (simp add: handleVolumeChange_def Let_def)

theorem handleVolumeChange_decrease_scrolls_up_once_witness:
  "emitted (handleVolumeChange True (45 / 100)
              \<lparr>lastVolumeRef = Some (50 / 100), isHandlingRef = False, emitted = []\<rparr>) =
     [ScrollUp, SetVolume (50 / 100)] \<and>
   \<bar>(5005 / 10000 :: rat) - 50 / 100\<bar> \<le> 1 / 1000 \<and>
   emitted (handleVolumeChange True (5005 / 10000)
              \<lparr>lastVolumeRef = Some (50 / 100), isHandlingRef = False, emitted = []\<rparr>) = []"
  using handleVolumeChange_decrease_scrolls_up_once
          [of "\<lparr>lastVolumeRef = Some (50 / 100), isHandlingRef = False, emitted = []\<rparr>"
              "5005 / 10000" "50 / 100" True]
  by simp

text \<open>
  Claim C9. For every progress value and every behaviour of the store and of the JSON
  codec, the promise of \<^const>\<open>saveReadingProgress\<close> is fulfilled; when the read, the parse
  or the write fails, nothing is written and the failure is logged. The caller
  \<^const>\<open>saveProgress\<close> of the reader is fulfilled as well.
\<close>

theorem saveReadingProgress_never_rejects:
  "settled (saveReadingProgress st progress) = Inr () \<and>
   (saveTryBlock st progress = Inl e \<longrightarrow>
      written (saveReadingProgress st progress) = None \<and>
      logged (saveReadingProgress st progress) = [''Failed to save reading progress:'']) \<and>
   saveProgress st routeMangaId routeChapterId routeChapterNumber s pageNow = Inr ()"
proof -
  have a: "settled (saveReadingProgress st p) = Inr ()" for p
    by (simp add: saveReadingProgress_def split: sum.split)
  then show ?thesis
    by (simp add: saveProgress_def saveReadingProgress_def)
qed

theorem saveReadingProgress_never_rejects_witness:
  "saveTryBlock
     \<lparr>getItem = (\<lambda>k. Inl StorageFailure), JSON_parse = (\<lambda>t. Inl SyntaxError),
      JSON_stringify = (\<lambda>m. Inr ''{}''), setItem = (\<lambda>k v. Inl StorageFailure), now = 0\<rparr>
     \<lparr>mangaId = ''m'', chapterId = ''c'', chapterNumber = ''1'', page = 3, totalPages = 20,
      updatedAt = 0\<rparr> = Inl StorageFailure \<and>
   settled (saveReadingProgress
     \<lparr>getItem = (\<lambda>k. Inl StorageFailure), JSON_parse = (\<lambda>t. Inl SyntaxError),
      JSON_stringify = (\<lambda>m. Inr ''{}''), setItem = (\<lambda>k v. Inl StorageFailure), now = 0\<rparr>
     \<lparr>mangaId = ''m'', chapterId = ''c'', chapterNumber = ''1'', page = 3, totalPages = 20,
      updatedAt = 0\<rparr>) = Inr () \<and>
   written (saveReadingProgress
     \<lparr>getItem = (\<lambda>k. Inl StorageFailure), JSON_parse = (\<lambda>t. Inl SyntaxError),
      JSON_stringify = (\<lambda>m. Inr ''{}''), setItem = (\<lambda>k v. Inl StorageFailure), now = 0\<rparr>
     \<lparr>mangaId = ''m'', chapterId = ''c'', chapterNumber = ''1'', page = 3, totalPages = 20,
      updatedAt = 0\<rparr>) = None"
proof -
  have f: "saveTryBlock
     \<lparr>getItem = (\<lambda>k. Inl StorageFailure), JSON_parse = (\<lambda>t. Inl SyntaxError),
      JSON_stringify = (\<lambda>m. Inr ''{}''), setItem = (\<lambda>k v. Inl StorageFailure), now = 0\<rparr>
     \<lparr>mangaId = ''m'', chapterId = ''c'', chapterNumber = ''1'', page = 3, totalPages = 20,
      updatedAt = 0\<rparr> = Inl StorageFailure"
    by (simp add: saveTryBlock_def)
  show ?thesis
    using f saveReadingProgress_never_rejects
          [of "\<lparr>getItem = (\<lambda>k. Inl StorageFailure), JSON_parse = (\<lambda>t. Inl SyntaxError),
      JSON_stringify = (\<lambda>m. Inr ''{}''), setItem = (\<lambda>k v. Inl StorageFailure), now = 0\<rparr>"
              "\<lparr>mangaId = ''m'', chapterId = ''c'', chapterNumber = ''1'', page = 3, totalPages = 20,
      updatedAt = 0\<rparr>" StorageFailure]
    by simp
qed

section \<open>What the handlers leave unchanged\<close>


lemma scrollCommands_append:
  "scrollCommands (xs @ ys) = scrollCommands xs @ scrollCommands ys"
  by (induction xs rule: scrollCommands.induct) simp_all

lemma preloadLoop_newIndices:
  "preloadLoop i currentMax urls toPreload preloaded =
     (toPreload @ map (\<lambda>j. (j, urlAt urls j)) (newIndices i currentMax urls preloaded),
      preloaded @ newIndices i currentMax urls preloaded)"
proof (induction i currentMax urls toPreload preloaded rule: preloadLoop.induct)
  case (1 i currentMax urls toPreload preloaded)
  let ?hi = "min (currentMax + PRELOAD_AHEAD_COUNT) (int (length urls) - 1)"
  show ?case
  proof (cases "i \<le> currentMax + PRELOAD_AHEAD_COUNT \<and> i < int (length urls)")
    case False
    then have "[i..?hi] = []" by auto
    moreover from False have "preloadLoop i currentMax urls toPreload preloaded = (toPreload, preloaded)"
      by (subst preloadLoop.simps) (simp only: if_False)
    ultimately show ?thesis
      by (simp add: newIndices_def)
  next
    case inRange: True
    then have upto: "[i..?hi] = i # [i + 1..?hi]"
      by (simp add: upto_rec1)
    show ?thesis
    proof (cases "i \<in> set preloaded")
      case True
      with inRange have "preloadLoop i currentMax urls toPreload preloaded =
          preloadLoop (i + 1) currentMax urls toPreload preloaded"
        by (subst preloadLoop.simps) simp
      also have "\<dots> = (toPreload @ map (\<lambda>j. (j, urlAt urls j)) (newIndices (i + 1) currentMax urls preloaded),
          preloaded @ newIndices (i + 1) currentMax urls preloaded)"
        using "1.IH"(2) inRange True by simp
      finally show ?thesis
        using True upto by (simp add: newIndices_def)
    next
      case False
      have same: "filter (\<lambda>j. j \<notin> set (preloaded @ [i])) [i + 1..?hi] =
            filter (\<lambda>j. j \<notin> set preloaded) [i + 1..?hi]"
        by (rule filter_cong) auto
      from False inRange have "preloadLoop i currentMax urls toPreload preloaded =
          preloadLoop (i + 1) currentMax urls (toPreload @ [(i, urlAt urls i)]) (preloaded @ [i])"
        by (subst preloadLoop.simps) simp
      also have "\<dots> = ((toPreload @ [(i, urlAt urls i)]) @
             map (\<lambda>j. (j, urlAt urls j)) (newIndices (i + 1) currentMax urls (preloaded @ [i])),
          (preloaded @ [i]) @ newIndices (i + 1) currentMax urls (preloaded @ [i]))"
        using "1.IH"(1) inRange False by simp
      finally show ?thesis
        using False upto same by (simp add: newIndices_def)
    qed
  qed
qed



lemma preloadImages_effects:
  "effects (preloadImages m s) =
     effects s @
       (if newIndices (m + 1) m (allPageUrls s) (preloadedRef s) = [] then []
        else [Prefetch (map (\<lambda>j. (j, urlAt (allPageUrls s) j))
                (newIndices (m + 1) m (allPageUrls s) (preloadedRef s)))])"
  by (simp add: preloadImages_def preloadLoop_newIndices)


lemma preloadImages_frame [simp]:
  "allPageUrls (preloadImages m s) = allPageUrls s"
  "loading (preloadImages m s) = loading s"
  "currentPage (preloadImages m s) = currentPage s"
  "initialScrollDone (preloadImages m s) = initialScrollDone s"
  "visibleIndices (preloadImages m s) = visibleIndices s"
  "loadedBatchEnd (preloadImages m s) = loadedBatchEnd s"
  "savedStartPageRef (preloadImages m s) = savedStartPageRef s"
  by (simp_all add: preloadImages_def preloadLoop_newIndices)

lemma visibilityBatchEffect_alt:
  "visibilityBatchEffect s =
     (if allPageUrls s = [] then s
      else preloadImages (maxWithZero (visibleIndices s))
             (s\<lparr> loadedBatchEnd :=
                   max (loadedBatchEnd s)
                     (min (int (length (allPageUrls s)))
                        (maxWithZero (visibleIndices s) + LOAD_AHEAD_COUNT + 1)) \<rparr>))"
proof (cases "allPageUrls s = []")
  case True
  then show ?thesis by (simp add: visibilityBatchEffect_def)
next
  case False
  let ?n = "int (length (allPageUrls s))"
  let ?m = "maxWithZero (visibleIndices s) + LOAD_AHEAD_COUNT + 1"
  have "(if min ?n (max (loadedBatchEnd s) ?m) > loadedBatchEnd s
         then s\<lparr> loadedBatchEnd := min ?n (max (loadedBatchEnd s) ?m) \<rparr> else s) =
        s\<lparr> loadedBatchEnd := max (loadedBatchEnd s) (min ?n ?m) \<rparr>"
  proof (cases "min ?n (max (loadedBatchEnd s) ?m) > loadedBatchEnd s")
    case True
    then have "min ?n (max (loadedBatchEnd s) ?m) = max (loadedBatchEnd s) (min ?n ?m)"
      by linarith
    with True show ?thesis by simp
  next
    case False
    then have eq: "max (loadedBatchEnd s) (min ?n ?m) = loadedBatchEnd s"
      by linarith
    from False have "(if min ?n (max (loadedBatchEnd s) ?m) > loadedBatchEnd s
         then s\<lparr> loadedBatchEnd := min ?n (max (loadedBatchEnd s) ?m) \<rparr> else s) = s"
      by (simp only: if_False)
    also have "s = s\<lparr> loadedBatchEnd := max (loadedBatchEnd s) (min ?n ?m) \<rparr>"
      unfolding eq by simp
    finally show ?thesis .
  qed
  with False show ?thesis
    by (simp add: visibilityBatchEffect_def Let_def)
qed

lemma newIndices_no_pages:
  "0 \<le> m \<Longrightarrow> newIndices (m + 1) m [] preloaded = []"
  by (simp add: newIndices_def)

lemma visibilityBatchEffect_frame [simp]:
  "allPageUrls (visibilityBatchEffect s) = allPageUrls s"
  "loading (visibilityBatchEffect s) = loading s"
  "currentPage (visibilityBatchEffect s) = currentPage s"
  "initialScrollDone (visibilityBatchEffect s) = initialScrollDone s"
  "visibleIndices (visibilityBatchEffect s) = visibleIndices s"
  "savedStartPageRef (visibilityBatchEffect s) = savedStartPageRef s"
  by (simp_all add: visibilityBatchEffect_alt)

lemma visibilityBatchEffect_loadedBatchEnd:
  "loadedBatchEnd (visibilityBatchEffect s) =
     (if allPageUrls s = [] then loadedBatchEnd s
      else max (loadedBatchEnd s)
             (min (int (length (allPageUrls s)))
                (maxWithZero (visibleIndices s) + LOAD_AHEAD_COUNT + 1)))"
  by (simp add: visibilityBatchEffect_alt)

lemma visibilityBatchEffect_effects:
  "effects (visibilityBatchEffect s) =
     effects s @
       (if newIndices (maxWithZero (visibleIndices s) + 1) (maxWithZero (visibleIndices s))
             (allPageUrls s) (preloadedRef s) = [] then []
        else [Prefetch (map (\<lambda>j. (j, urlAt (allPageUrls s) j))
                (newIndices (maxWithZero (visibleIndices s) + 1) (maxWithZero (visibleIndices s))
                   (allPageUrls s) (preloadedRef s)))])"
  by (simp add: visibilityBatchEffect_alt preloadImages_effects newIndices_no_pages
        maxWithZero_ge_0)


section \<open>The batch boundary along a session\<close>

lemma visibilityBatchEffect_grows:
  "loadedBatchEnd s \<le> loadedBatchEnd (visibilityBatchEffect s)"
  by (simp add: visibilityBatchEffect_loadedBatchEnd)

lemma onEndReached_grows:
  "loadedBatchEnd s \<le> loadedBatchEnd (onEndReached s)"
  by (simp add: onEndReached_def LOAD_AHEAD_COUNT_def)

lemma onViewableItemsChanged_frame [simp]:
  "loadedBatchEnd (onViewableItemsChanged items s) = loadedBatchEnd s"
  "allPageUrls (onViewableItemsChanged items s) = allPageUrls s"
  "initialScrollDone (onViewableItemsChanged items s) = initialScrollDone s"
  "effects (onViewableItemsChanged items s) = effects s"
  "preloadedRef (onViewableItemsChanged items s) = preloadedRef s"
  "loading (onViewableItemsChanged items s) = loading s"
  "savedStartPageRef (onViewableItemsChanged items s) = savedStartPageRef s"
  by (simp_all add: onViewableItemsChanged_def Let_def)

lemma onEndReached_frame [simp]:
  "allPageUrls (onEndReached s) = allPageUrls s"
  "initialScrollDone (onEndReached s) = initialScrollDone s"
  "effects (onEndReached s) = effects s"
  "preloadedRef (onEndReached s) = preloadedRef s"
  "visibleIndices (onEndReached s) = visibleIndices s"
  "loading (onEndReached s) = loading s"
  "savedStartPageRef (onEndReached s) = savedStartPageRef s"
  by (simp_all add: onEndReached_def)

lemma onScrollToIndexFailed_frame [simp]:
  "allPageUrls (onScrollToIndexFailed i s) = allPageUrls s"
  "initialScrollDone (onScrollToIndexFailed i s) = initialScrollDone s"
  "effects (onScrollToIndexFailed i s) = effects s @ [ScrollToIndex i]"
  "preloadedRef (onScrollToIndexFailed i s) = preloadedRef s"
  "visibleIndices (onScrollToIndexFailed i s) = visibleIndices s"
  "loadedBatchEnd (onScrollToIndexFailed i s) = loadedBatchEnd s"
  "loading (onScrollToIndexFailed i s) = loading s"
  "savedStartPageRef (onScrollToIndexFailed i s) = savedStartPageRef s"
  by (simp_all add: onScrollToIndexFailed_def)

lemma initialScrollRestore_done [simp]:
  "initialScrollDone s \<Longrightarrow> initialScrollRestore s = s"
  "initialScrollDone s \<Longrightarrow> \<not> restoreGuard s"
  by (simp_all add: initialScrollRestore_def restoreGuard_def)

lemma initialScrollRestore_frame [simp]:
  "allPageUrls (initialScrollRestore s) = allPageUrls s"
  "preloadedRef (initialScrollRestore s) = preloadedRef s"
  "loading (initialScrollRestore s) = loading s"
  "savedStartPageRef (initialScrollRestore s) = savedStartPageRef s"
  by (simp_all add: initialScrollRestore_def Let_def)

lemma initialScrollRestore_effects:
  "effects (initialScrollRestore s) =
     effects s @ (if restoreGuard s then [ScrollToIndex (savedStartPageRef s)] else [])"
  by (simp add: initialScrollRestore_def Let_def)

lemma step_allPageUrls [simp]: "allPageUrls (step e s) = allPageUrls s"
  by (cases e) simp_all

lemma run_allPageUrls [simp]: "allPageUrls (run es s) = allPageUrls s"
  unfolding run_def by (induction es arbitrary: s) simp_all

lemma run_Nil [simp]: "run [] s = s"
  by (simp add: run_def)

lemma run_Cons [simp]: "run (e # es) s = run es (step e s)"
  by (simp add: run_def)

lemma step_keeps_done:
  "initialScrollDone s \<Longrightarrow> initialScrollDone (step e s)"
  by (cases e) simp_all

lemma step_grows_when_done:
  "initialScrollDone s \<Longrightarrow> loadedBatchEnd s \<le> loadedBatchEnd (step e s)"
  by (cases e) (simp_all add: visibilityBatchEffect_loadedBatchEnd onEndReached_grows)

lemma step_scrollCommands_when_done:
  "initialScrollDone s \<Longrightarrow>
   scrollCommands (effects (step e s)) = scrollCommands (effects s) @ failedIndices [e]"
  by (cases e) (simp_all add: visibilityBatchEffect_effects scrollCommands_append)

lemma run_when_done:
  "initialScrollDone s \<Longrightarrow>
   initialScrollDone (run es s) \<and>
   loadedBatchEnd s \<le> loadedBatchEnd (run es s) \<and>
   scrollCommands (effects (run es s)) = scrollCommands (effects s) @ failedIndices es"
proof (induction es arbitrary: s)
  case Nil
  then show ?case by simp
next
  case (Cons e es)
  from Cons.prems have d: "initialScrollDone (step e s)"
    by (rule step_keeps_done)
  have f: "failedIndices (e # es) = failedIndices [e] @ failedIndices es"
    by (cases e) simp_all
  from Cons.IH [OF d] step_grows_when_done [OF Cons.prems, of e]
    step_scrollCommands_when_done [OF Cons.prems, of e] f
  show ?case by simp
qed

text \<open>
  Claim C3 at a session the screen goes through. A chapter of 20 pages is opened with
  saved progress at page 12: the load sets the boundary to 16 and the effect on the visible
  set \<open>{11, 12, 13}\<close> raises it to 17. The restore of the saved position, whose guard holds,
  then assigns \<open>max 5 (12 + 3 + 1) = 16\<close>, a smaller value.
\<close>

theorem initialScrollRestore_lowers_boundary:
  "(let s = openChapter ''c''
              (Inr \<lparr>savedProgress =
                      Some \<lparr>mangaId = ''m'', chapterId = ''c'', chapterNumber = ''1'',
                            page = 12, totalPages = 20, updatedAt = 0\<rparr>,
                    downloadedPages = None, apiPages = Inr (replicate 20 ''p''),
                    markChapterAsReadFails = False\<rparr>)
    in restoreGuard s = True \<and> loadedBatchEnd s = 17 \<and>
       loadedBatchEnd (initialScrollRestore s) = 16)"
  by code_simp

lemma loadChapter_saved_page:
  assumes "urls \<noteq> []" and "chapterId p = cid"
  shows "loadChapter cid
           (Inr \<lparr>savedProgress = Some p, downloadedPages = None, apiPages = Inr urls,
                 markChapterAsReadFails = False\<rparr>) s0 =
         s0\<lparr> preloadedRef := [],
             savedStartPageRef := page p,
             allPageUrls := urls,
             loadedBatchEnd :=
               min (int (length urls)) (max INITIAL_BATCH_SIZE (page p + LOAD_AHEAD_COUNT + 1)),
             currentPage := page p,
             visibleIndices :=
               filter (\<lambda>i. i \<ge> 0 \<and> i < int (length urls)) [page p - 1, page p, page p + 1],
             initialScrollDone := False,
             effects := effects s0 @
               [Prefetch (map (\<lambda>k. (int k, Some (urls ! k))) [0..<min 3 (length urls)])],
             loading := False \<rparr>"
  using assms by (simp add: loadChapter_def Let_def)

section \<open>The two steps of loading\<close>

lemma visibilityBatchEffect_loading:
  "visibilityBatchEffect (s\<lparr> loading := b \<rparr>) = (visibilityBatchEffect s)\<lparr> loading := b \<rparr>"
  by (simp add: visibilityBatchEffect_alt preloadImages_def split: prod.split)

lemma loadChapter_in_two_steps:
  "loadChapter cid fetched s0 = loadChapterSettle fetched (loadChapterCommit cid fetched s0)"
proof (cases fetched)
  case (Inl e)
  then show ?thesis
    by (simp add: loadChapter_def loadChapterCommit_def loadChapterSettle_def)
next
  case (Inr f)
  show ?thesis
  proof (cases "length (resolvedPageUrls f) > 0")
    case True
    with Inr show ?thesis
      unfolding loadChapter_def loadChapterCommit_def loadChapterSettle_def
      by (simp add: Let_def resolvedPageUrls_def [symmetric, unfolded Let_def])
  next
    case False
    with Inr show ?thesis
      unfolding loadChapter_def loadChapterCommit_def loadChapterSettle_def
      by (simp add: Let_def resolvedPageUrls_def [symmetric, unfolded Let_def])
  qed
qed

lemma openChapter_when_marked:
  assumes "\<not> (resolvedPageUrls f \<noteq> [] \<and> markChapterAsReadFails f)"
  shows "openChapter cid (Inr f) = visibilityBatchEffect (loadChapter cid (Inr f) initialState)"
proof -
  have "loadChapterSettle (Inr f) s = s\<lparr> loading := False \<rparr>" for s
    using assms by (auto simp add: loadChapterSettle_def)
  then show ?thesis
    by (simp add: openChapter_def loadChapter_in_two_steps visibilityBatchEffect_loading)
qed

lemma loadChapterSettle_frame [simp]:
  "effects (loadChapterSettle fetched s) = effects s"
  "preloadedRef (loadChapterSettle fetched s) = preloadedRef s"
  by (simp_all add: loadChapterSettle_def split: sum.split)

lemma loadChapterCommit_preloadedRef [simp]:
  "preloadedRef (loadChapterCommit cid fetched s0) = []"
  by (simp add: loadChapterCommit_def Let_def split: sum.split option.split)


text \<open>
  Claim C6, as amended. A sequence of 20 pages is loaded with saved progress at index 12.
  The load sets the batch boundary to 16 and seeds the visible window with 11, 12 and 13.
  The restore of the saved position then issues one scroll-to-index(12) and seeds the same
  window again. Whatever events follow, the boundary stays at least 16, and the scroll
  commands issued are that one command followed by one retry for each failure that the
  list reports to \<^verbatim>\<open>onScrollToIndexFailed\<close>, in order: exactly one command when the list
  reports no failure.
\<close>

theorem restore_scrolls_once_then_retries_on_failure:
  assumes "length urls = 20" and "chapterId p = cid" and "page p = 12"
  shows
    "(let f = Inr \<lparr>savedProgress = Some p, downloadedPages = None, apiPages = Inr urls,
                   markChapterAsReadFails = False\<rparr>;
          s1 = loadChapter cid f initialState;
          s2 = step RestoreTimer (openChapter cid f)
      in loadedBatchEnd s1 = 16 \<and>
         visibleIndices s1 = [11, 12, 13] \<and>
         scrollCommands (effects (openChapter cid f)) = [] \<and>
         16 \<le> loadedBatchEnd (openChapter cid f) \<and>
         visibleIndices s2 = [11, 12, 13] \<and>
         scrollCommands (effects s2) = [12] \<and>
         (\<forall>es. scrollCommands (effects (run es s2)) = 12 # failedIndices es \<and>
               16 \<le> loadedBatchEnd (run es s2)))"
proof -
  define f :: "error + Fetched" where
    "f = Inr \<lparr>savedProgress = Some p, downloadedPages = None, apiPages = Inr urls,
              markChapterAsReadFails = False\<rparr>"
  define s1 where "s1 = loadChapter cid f initialState"
  define s2 where "s2 = step RestoreTimer (openChapter cid f)"
  from assms(1) have ne: "urls \<noteq> []" by auto
  have op: "openChapter cid f = visibilityBatchEffect s1"
    unfolding f_def s1_def by (rule openChapter_when_marked) simp
  have s1: "s1 = initialState\<lparr> preloadedRef := [],
             savedStartPageRef := 12,
             allPageUrls := urls,
             loadedBatchEnd := 16,
             currentPage := 12,
             visibleIndices := [11, 12, 13],
             initialScrollDone := False,
             effects := [Prefetch (map (\<lambda>k. (int k, Some (urls ! k))) [0..<3])],
             loading := False \<rparr>"
    unfolding s1_def f_def loadChapter_saved_page [OF ne assms(2)]
    using assms(1,3)
    by (simp add: INITIAL_BATCH_SIZE_def LOAD_AHEAD_COUNT_def initialState_def)
  have guard: "restoreGuard (visibilityBatchEffect s1)"
    using ne by (simp add: restoreGuard_def s1)
  have open_scroll: "scrollCommands (effects (visibilityBatchEffect s1)) = []"
    by (simp add: visibilityBatchEffect_effects scrollCommands_append s1)
  have s2_eq: "s2 = visibilityBatchEffect (initialScrollRestore (visibilityBatchEffect s1))"
    unfolding s2_def op using guard by simp
  have r_vis: "visibleIndices (initialScrollRestore (visibilityBatchEffect s1)) = [11, 12, 13]"
    using guard by (simp add: initialScrollRestore_def Let_def s1)
  have r_lbe: "loadedBatchEnd (initialScrollRestore (visibilityBatchEffect s1)) = 16"
    using guard
    by (simp add: initialScrollRestore_def Let_def s1 INITIAL_BATCH_SIZE_def LOAD_AHEAD_COUNT_def)
  have r_done: "initialScrollDone (initialScrollRestore (visibilityBatchEffect s1))"
    using guard by (simp add: initialScrollRestore_def Let_def)
  have r_scroll: "scrollCommands (effects (initialScrollRestore (visibilityBatchEffect s1))) = [12]"
    using guard open_scroll
    by (simp add: initialScrollRestore_effects scrollCommands_append s1)
  have s2_vis: "visibleIndices s2 = [11, 12, 13]"
    by (simp add: s2_eq r_vis)
  have s2_done: "initialScrollDone s2"
    by (simp add: s2_eq r_done)
  have s2_scroll: "scrollCommands (effects s2) = [12]"
    by (simp add: s2_eq visibilityBatchEffect_effects scrollCommands_append r_scroll)
  have s2_lbe: "16 \<le> loadedBatchEnd s2"
    using visibilityBatchEffect_grows [of "initialScrollRestore (visibilityBatchEffect s1)"]
    by (simp add: s2_eq r_lbe)
  have later: "scrollCommands (effects (run es s2)) = 12 # failedIndices es \<and>
               16 \<le> loadedBatchEnd (run es s2)" for es
    using run_when_done [OF s2_done, of es] s2_scroll s2_lbe by simp
  have "loadedBatchEnd s1 = 16" "visibleIndices s1 = [11, 12, 13]"
    by (simp_all add: s1)
  moreover have "scrollCommands (effects (openChapter cid f)) = []"
    unfolding op by (rule open_scroll)
  moreover have "16 \<le> loadedBatchEnd (openChapter cid f)"
    unfolding op using visibilityBatchEffect_grows [of s1] by (simp add: s1)
  ultimately show ?thesis
    unfolding Let_def f_def [symmetric] s1_def [symmetric] s2_def [symmetric]
    using s2_vis s2_scroll later by simp
qed

theorem restore_scrolls_once_then_retries_on_failure_witness:
  "length (replicate 20 ''p'') = 20 \<and>
   scrollCommands (effects (run []
     (step RestoreTimer
        (openChapter ''c''
           (Inr \<lparr>savedProgress =
                   Some \<lparr>mangaId = ''m'', chapterId = ''c'', chapterNumber = ''1'',
                         page = 12, totalPages = 20, updatedAt = 0\<rparr>,
                 downloadedPages = None, apiPages = Inr (replicate 20 ''p''),
                 markChapterAsReadFails = False\<rparr>))))) = [12]"
  using restore_scrolls_once_then_retries_on_failure
          [of "replicate 20 ''p''"
              "\<lparr>mangaId = ''m'', chapterId = ''c'', chapterNumber = ''1'',
                page = 12, totalPages = 20, updatedAt = 0\<rparr>" "''c''"]
  by (simp add: Let_def)

text \<open>
  The claim as stated fails when the list reports that the scroll failed: the handler
  issues the command again, so two scroll-to-index(12) commands have been issued.
\<close>

theorem restore_scrolls_once_counterexample:
  "scrollCommands (effects (run [RestoreTimer, ScrollToIndexFailed 12]
     (openChapter ''c''
        (Inr \<lparr>savedProgress =
                Some \<lparr>mangaId = ''m'', chapterId = ''c'', chapterNumber = ''1'',
                      page = 12, totalPages = 20, updatedAt = 0\<rparr>,
              downloadedPages = None, apiPages = Inr (replicate 20 ''p''),
              markChapterAsReadFails = False\<rparr>)))) = [12, 12]"
  by code_simp

section \<open>Prefetch requests along a session\<close>


lemma requestedSince_unchanged:
  assumes "effects s' = effects s @ before" and "prefetchedIndices before = []"
  shows "requestedSince s s' = []"
  using assms by (simp add: requestedSince_def)





lemma loadChapter_preloadedRef [simp]: "preloadedRef (loadChapter cid fetched s0) = []"
  by (simp add: loadChapter_def Let_def split: sum.split option.split)





end
